theory Spec2Isabelle
  imports Main "HOL-Library.Multiset"
begin

section \<open>The bank accounts application (app.py)\<close>

text \<open>
  The application is one Python module of five request handlers over two tables of a
  PostgreSQL database, \<open>account\<close> and \<open>depositor\<close>. Each handler is embedded as a function
  that takes the state it reads and returns the state it leaves, with every exception of
  the source as a value of \<open>error\<close>.

  Three libraries decide what the handlers do: Python's \<open>decimal\<close> module (the constructor
  \<open>Decimal\<close> and the comparison with zero), the database driver with its connection pool,
  and the rate limiter. They are not part of the module; each is modelled below as far
  as the handlers use it, from its documentation, and the model says where it stops.
\<close>

subsection \<open>Exceptions\<close>

datatype error =
    InvalidOperation            \<comment> \<open>\<open>decimal.InvalidOperation\<close>\<close>
  | ValueError string           \<comment> \<open>raised by \<open>account_update_save\<close>, with its message\<close>
  | BadRequestKeyError          \<comment> \<open>\<open>request.form["balance"]\<close> with no such field\<close>
  | PoolTimeout                 \<comment> \<open>no connection within the pool's timeout\<close>
  | DatabaseError               \<comment> \<open>a statement the database refuses or cannot run\<close>
  | RateLimitExceeded           \<comment> \<open>raised by the limiter before the view function\<close>

subsection \<open>The decimal module: \<open>Decimal(s)\<close> for a string\<close>

text \<open>
  A string is a list of 8-bit characters, read as the code points below 256. Among them
  the decimal digits are \<open>0\<close> to \<open>9\<close>, and Python's \<open>str.isspace\<close> holds for the code points
  9 to 13, 28 to 32, 133 and 160.
\<close>

definition is_digit :: "char \<Rightarrow> bool" where
  "is_digit c = (c \<in> set ''0123456789'')"

definition isspace :: "char \<Rightarrow> bool" where
  "isspace c = ((of_char c :: nat) \<in> set [9, 10, 11, 12, 13, 28, 29, 30, 31, 32, 133, 160])"

definition lower :: "char \<Rightarrow> char" where
  "lower c =
     (case map_of (zip ''ABCDEFGHIJKLMNOPQRSTUVWXYZ'' ''abcdefghijklmnopqrstuvwxyz'') c of
        None \<Rightarrow> c
      | Some l \<Rightarrow> l)"

definition strip :: "string \<Rightarrow> string" where
  "strip s = rev (dropWhile isspace (rev (dropWhile isspace s)))"

definition remove_underscores :: "string \<Rightarrow> string" where
  "remove_underscores s = filter (\<lambda>c. c \<noteq> CHR ''_'') s"

definition digit_val :: "char \<Rightarrow> nat" where
  "digit_val c = (of_char c :: nat) - 48"

definition int_of_digits :: "string \<Rightarrow> nat" where
  "int_of_digits ds = foldl (\<lambda>n c. 10 * n + digit_val c) 0 ds"

text \<open>
  A decimal value is a finite number (sign, coefficient, exponent: the number
  \<open>(-1)^sign * coefficient * 10^exponent\<close>), an infinity, or a NaN (quiet or signalling,
  with its diagnostic digits). The sign is \<open>True\<close> for a minus.
\<close>

datatype decimal =
    Finite bool nat int
  | Infinite bool
  | NaN bool bool nat

text \<open>
  The constructor reads \<open>value.strip().replace("_", "")\<close> with one case-insensitive
  pattern, anchored at both ends: an optional sign, then either a number (at least one
  digit, an optional fractional part, an optional exponent), or \<open>Inf\<close> / \<open>Infinity\<close>, or
  an optionally signalling \<open>NaN\<close> with diagnostic digits. \<open>None\<close> stands for the exception
  \<open>InvalidOperation\<close>, which is all the constructor raises on a string. The bound of the
  compiled implementation on the size of an exponent (beyond eighteen digits) is not
  modelled.
\<close>

fun parse_sign :: "string \<Rightarrow> bool \<times> string" where
  "parse_sign [] = (False, [])"
| "parse_sign (c # cs) =
     (if c = CHR ''-'' then (True, cs)
      else if c = CHR ''+'' then (False, cs)
      else (False, c # cs))"

text \<open>The lookahead of the pattern: a digit, or a point followed by a digit.\<close>

fun starts_number :: "string \<Rightarrow> bool" where
  "starts_number [] = False"
| "starts_number (c # cs) =
     (is_digit c \<or> (c = CHR ''.'' \<and> (case cs of [] \<Rightarrow> False | d # _ \<Rightarrow> is_digit d)))"

text \<open>The optional fractional part: its digits (none when there is no point) and the rest.\<close>

fun parse_frac :: "string \<Rightarrow> string \<times> string" where
  "parse_frac [] = ([], [])"
| "parse_frac (c # cs) =
     (if c = CHR ''.'' then (takeWhile is_digit cs, dropWhile is_digit cs)
      else ([], c # cs))"

text \<open>
  The optional exponent, which must reach the end of the string: \<open>E\<close>, an optional sign
  and at least one digit. \<open>None\<close> when what is left does not match.
\<close>

fun parse_exp :: "string \<Rightarrow> int option" where
  "parse_exp [] = Some 0"
| "parse_exp (c # cs) =
     (if lower c = CHR ''e'' then
        (case parse_sign cs of
           (neg, ds) \<Rightarrow>
             if ds \<noteq> [] \<and> list_all is_digit ds
             then Some (if neg then - int (int_of_digits ds) else int (int_of_digits ds))
             else None)
      else None)"

definition parse_number :: "bool \<Rightarrow> string \<Rightarrow> decimal option" where
  "parse_number sg s =
     (if starts_number s then
        (let intpart = takeWhile is_digit s;
             (fracpart, rest) = parse_frac (dropWhile is_digit s)
         in case parse_exp rest of
              None \<Rightarrow> None
            | Some e \<Rightarrow>
                Some (Finite sg (int_of_digits (intpart @ fracpart)) (e - int (length fracpart))))
      else None)"

definition parse_infinity :: "bool \<Rightarrow> string \<Rightarrow> decimal option" where
  "parse_infinity sg s =
     (if map lower s = ''inf'' \<or> map lower s = ''infinity'' then Some (Infinite sg) else None)"

fun parse_nan :: "bool \<Rightarrow> string \<Rightarrow> decimal option" where
  "parse_nan sg s =
     (let (signal, r) =
            (case s of
               [] \<Rightarrow> (False, [])
             | c # cs \<Rightarrow> if lower c = CHR ''s'' then (True, cs) else (False, c # cs))
      in if map lower (take 3 r) = ''nan'' \<and> list_all is_digit (drop 3 r)
         then Some (NaN sg signal (int_of_digits (drop 3 r)))
         else None)"

definition Decimal :: "string \<Rightarrow> decimal option" where
  "Decimal v =
     (case parse_sign (remove_underscores (strip v)) of
        (sg, body) \<Rightarrow>
          (case parse_number sg body of
             Some d \<Rightarrow> Some d
           | None \<Rightarrow>
               (case parse_infinity sg body of
                  Some d \<Rightarrow> Some d
                | None \<Rightarrow> parse_nan sg body)))"

text \<open>
  \<open>Decimal(balance) < 0\<close>: a comparison with a NaN signals \<open>InvalidOperation\<close>, which the
  default context raises. A finite number is below zero when its sign is minus and its
  coefficient is not zero; minus infinity is below zero.
\<close>

fun lt_zero :: "decimal \<Rightarrow> error + bool" where
  "lt_zero (Finite sg c e) = Inr (sg \<and> c \<noteq> 0)"
| "lt_zero (Infinite sg) = Inr sg"
| "lt_zero (NaN sg signal diag) = Inl InvalidOperation"

subsection \<open>The validation helper\<close>

text \<open>
  \<^verbatim>\<open>
  def is_decimal(s):
      """Returns True if string is a parseable Decimal number."""
      try:
          Decimal(s)
          return True
      except InvalidOperation:
          return False
  \<close>
\<close>

definition is_decimal :: "string \<Rightarrow> bool" where
  "is_decimal s = (case Decimal s of Some d \<Rightarrow> True | None \<Rightarrow> False)"

subsection \<open>The two tables\<close>

text \<open>
  The schema is not part of the module. A row of \<open>account\<close> has the three columns the
  module selects; a row of \<open>depositor\<close> has the column \<open>account_number\<close> the module
  deletes by, and a reference to a customer. The type \<open>'k\<close> of an account number is the
  column's, with the order \<open>ORDER BY\<close> sorts by; a balance is kept as the text the module
  sends, and a value the column refuses is a statement that fails.
\<close>

record 'k account_row =
  account_number :: 'k
  branch_name :: string
  balance :: string

record 'k depositor_row =
  customer_name :: string
  depositor_account_number :: 'k

record 'k database =
  account :: "'k account_row list"
  depositor :: "'k depositor_row list"

subsection \<open>Statements and what a cursor returns\<close>

datatype 'k statement =
    Begin                          \<comment> \<open>\<open>BEGIN\<close>, sent on entering \<open>conn.transaction()\<close>\<close>
  | Commit                         \<comment> \<open>\<open>COMMIT\<close>, sent on leaving it normally\<close>
  | Rollback                       \<comment> \<open>\<open>ROLLBACK\<close>, sent on leaving it by an exception\<close>
  | Select_accounts                \<comment> \<open>\<open>SELECT ... FROM account ORDER BY account_number DESC\<close>\<close>
  | Select_account 'k              \<comment> \<open>\<open>SELECT ... FROM account WHERE account_number = k\<close>\<close>
  | Update_account 'k string       \<comment> \<open>\<open>UPDATE account SET balance = b WHERE account_number = k\<close>\<close>
  | Delete_depositor 'k            \<comment> \<open>\<open>DELETE FROM depositor WHERE account_number = k\<close>\<close>
  | Delete_account 'k              \<comment> \<open>\<open>DELETE FROM account WHERE account_number = k\<close>\<close>

record 'k cursor =
  fetched :: "'k account_row list"     \<comment> \<open>the rows of a \<open>SELECT\<close>\<close>
  rowcount :: nat                      \<comment> \<open>rows returned or affected\<close>

definition order_by_account_number_desc :: "('k::linorder) account_row list \<Rightarrow> 'k account_row list" where
  "order_by_account_number_desc rs = rev (sort_key account_number rs)"

text \<open>What a data statement does to the tables it runs on, and what its cursor holds.\<close>

fun run :: "('k::linorder) statement \<Rightarrow> 'k database \<Rightarrow> 'k cursor \<times> 'k database" where
  "run Select_accounts d =
     (let rs = order_by_account_number_desc (account d)
      in (\<lparr>fetched = rs, rowcount = length rs\<rparr>, d))"
| "run (Select_account k) d =
     (let rs = filter (\<lambda>r. account_number r = k) (account d)
      in (\<lparr>fetched = rs, rowcount = length rs\<rparr>, d))"
| "run (Update_account k b) d =
     (\<lparr>fetched = [], rowcount = length (filter (\<lambda>r. account_number r = k) (account d))\<rparr>,
      d\<lparr>account := map (\<lambda>r. if account_number r = k then r\<lparr>balance := b\<rparr> else r) (account d)\<rparr>)"
| "run (Delete_depositor k) d =
     (\<lparr>fetched = [], rowcount = length (filter (\<lambda>r. depositor_account_number r = k) (depositor d))\<rparr>,
      d\<lparr>depositor := filter (\<lambda>r. depositor_account_number r \<noteq> k) (depositor d)\<rparr>)"
| "run (Delete_account k) d =
     (\<lparr>fetched = [], rowcount = length (filter (\<lambda>r. account_number r = k) (account d))\<rparr>,
      d\<lparr>account := filter (\<lambda>r. account_number r \<noteq> k) (account d)\<rparr>)"
| "run Begin d = (\<lparr>fetched = [], rowcount = 0\<rparr>, d)"
| "run Commit d = (\<lparr>fetched = [], rowcount = 0\<rparr>, d)"
| "run Rollback d = (\<lparr>fetched = [], rowcount = 0\<rparr>, d)"

subsection \<open>The connection\<close>

text \<open>
  The pool hands out connections in autocommit mode: a statement outside a transaction
  is committed at once. \<open>committed\<close> is what the database holds, \<open>pending\<close> the tables as
  the open transaction sees them (\<open>None\<close> when no transaction is open), and \<open>issued\<close> the
  statements sent so far, in order.

  What the module cannot decide is an input: \<open>pool_timeout\<close> says whether
  \<open>pool.connection()\<close> gives up, and \<open>fails n\<close> whether the database refuses the statement
  sent as number \<open>n\<close> (a constraint, a value the column does not take, a lost
  connection). A refused statement changes no row. A refused \<open>COMMIT\<close> commits nothing,
  and the transaction is gone after a \<open>ROLLBACK\<close> whether or not it is acknowledged.
\<close>

record 'k session =
  committed :: "'k database"
  pending :: "'k database option"
  issued :: "'k statement list"

record env =
  pool_timeout :: bool
  fails :: "nat \<Rightarrow> bool"

definition perform :: "('k::linorder) statement \<Rightarrow> 'k session \<Rightarrow> 'k cursor \<times> 'k session" where
  "perform st s =
     (case st of
        Begin \<Rightarrow> (\<lparr>fetched = [], rowcount = 0\<rparr>, s\<lparr>pending := Some (committed s)\<rparr>)
      | Commit \<Rightarrow>
          (\<lparr>fetched = [], rowcount = 0\<rparr>,
           (case pending s of
              None \<Rightarrow> s
            | Some d \<Rightarrow> s\<lparr>committed := d, pending := None\<rparr>))
      | Rollback \<Rightarrow> (\<lparr>fetched = [], rowcount = 0\<rparr>, s\<lparr>pending := None\<rparr>)
      | _ \<Rightarrow>
          (case pending s of
             None \<Rightarrow> (case run st (committed s) of (c, d) \<Rightarrow> (c, s\<lparr>committed := d\<rparr>))
           | Some p \<Rightarrow> (case run st p of (c, d) \<Rightarrow> (c, s\<lparr>pending := Some d\<rparr>))))"

definition refuse :: "'k statement \<Rightarrow> 'k session \<Rightarrow> 'k session" where
  "refuse st s = (case st of Commit \<Rightarrow> s\<lparr>pending := None\<rparr> | Rollback \<Rightarrow> s\<lparr>pending := None\<rparr> | _ \<Rightarrow> s)"

text \<open>\<open>cur.execute(...)\<close>, and the statements the transaction block sends.\<close>

definition execute :: "env \<Rightarrow> ('k::linorder) statement \<Rightarrow> 'k session \<Rightarrow> (error + 'k cursor) \<times> 'k session" where
  "execute env st s =
     (let s' = s\<lparr>issued := issued s @ [st]\<rparr>
      in if fails env (length (issued s)) then (Inl DatabaseError, refuse st s')
         else (case perform st s' of (c, s'') \<Rightarrow> (Inr c, s'')))"

text \<open>
  \<open>with pool.connection() as conn\<close>: the block runs on a connection, or \<open>PoolTimeout\<close> is
  raised before it starts.
\<close>

definition connection ::
  "env \<Rightarrow> ('k session \<Rightarrow> (error + 'a) \<times> 'k session) \<Rightarrow> 'k session \<Rightarrow> (error + 'a) \<times> 'k session" where
  "connection env block s = (if pool_timeout env then (Inl PoolTimeout, s) else block s)"

text \<open>
  \<open>with conn.transaction()\<close>: \<open>BEGIN\<close>, the block, then \<open>COMMIT\<close> when the block returns
  and \<open>ROLLBACK\<close> when it raises; the block's exception is raised again after the
  rollback, whatever the rollback's own outcome.
\<close>

definition transaction ::
  "env \<Rightarrow> (('k::linorder) session \<Rightarrow> (error + 'a) \<times> 'k session) \<Rightarrow> 'k session \<Rightarrow> (error + 'a) \<times> 'k session" where
  "transaction env block s =
     (case execute env Begin s of
        (Inl e, s1) \<Rightarrow> (Inl e, s1)
      | (Inr b, s1) \<Rightarrow>
          (case block s1 of
             (Inl e, s2) \<Rightarrow> (case execute env Rollback s2 of (r, s3) \<Rightarrow> (Inl e, s3))
           | (Inr x, s2) \<Rightarrow>
               (case execute env Commit s2 of
                  (Inl e, s3) \<Rightarrow> (Inl e, s3)
                | (Inr c, s3) \<Rightarrow> (Inr x, s3))))"

subsection \<open>Responses\<close>

datatype endpoint =
    EP_account_index | EP_account_update_view | EP_account_update_save | EP_account_delete | EP_ping

datatype 'k response =
    Render_index "'k account_row list"           \<comment> \<open>\<open>render_template("account/index.html", accounts=...)\<close>\<close>
  | Render_update "'k account_row option"        \<comment> \<open>\<open>render_template("account/update.html", account=...)\<close>\<close>
  | Redirect endpoint                            \<comment> \<open>\<open>redirect(url_for(...))\<close>\<close>
  | Jsonify "(string \<times> string) list"            \<comment> \<open>\<open>jsonify({...})\<close>\<close>

text \<open>The status Flask gives each kind of response when the view names none.\<close>

fun status_code :: "'k response \<Rightarrow> nat" where
  "status_code (Redirect ep) = 302"
| "status_code r = 200"

subsection \<open>The view functions\<close>

definition account_index :: "env \<Rightarrow> ('k::linorder) session \<Rightarrow> (error + 'k response) \<times> 'k session" where
  "account_index env s =
     connection env
       (\<lambda>s. case execute env Select_accounts s of
               (Inl e, s') \<Rightarrow> (Inl e, s')
             | (Inr cur, s') \<Rightarrow> (Inr (Render_index (fetched cur)), s')) s"

text \<open>\<open>fetchone()\<close> is the first row, or \<open>None\<close>.\<close>

definition fetchone :: "'k cursor \<Rightarrow> 'k account_row option" where
  "fetchone cur = (case fetched cur of [] \<Rightarrow> None | r # rs \<Rightarrow> Some r)"

definition account_update_view ::
  "env \<Rightarrow> ('k::linorder) \<Rightarrow> 'k session \<Rightarrow> (error + 'k response) \<times> 'k session" where
  "account_update_view env number s =
     connection env
       (\<lambda>s. case execute env (Select_account number) s of
               (Inl e, s') \<Rightarrow> (Inl e, s')
             | (Inr cur, s') \<Rightarrow> (Inr (Render_update (fetchone cur)), s')) s"

text \<open>
  \<open>account_update_save\<close>: the form field, the three checks in the source's order, then
  the one \<open>UPDATE\<close> in autocommit mode and the redirect.
\<close>

definition update_balance ::
  "env \<Rightarrow> ('k::linorder) \<Rightarrow> string \<Rightarrow> 'k session \<Rightarrow> (error + 'k response) \<times> 'k session" where
  "update_balance env number bal s =
     connection env
       (\<lambda>s. case execute env (Update_account number bal) s of
               (Inl e, s') \<Rightarrow> (Inl e, s')
             | (Inr cur, s') \<Rightarrow> (Inr (Redirect EP_account_index), s')) s"

definition account_update_save ::
  "env \<Rightarrow> (string \<rightharpoonup> string) \<Rightarrow> ('k::linorder) \<Rightarrow> 'k session \<Rightarrow> (error + 'k response) \<times> 'k session" where
  "account_update_save env form number s =
     (case form ''balance'' of
        None \<Rightarrow> (Inl BadRequestKeyError, s)
      | Some bal \<Rightarrow>
          if bal = [] then (Inl (ValueError ''Balance is required.''), s)
          else if \<not> is_decimal bal then (Inl (ValueError ''Balance is required to be decimal.''), s)
          else
            (case Decimal bal of
               None \<Rightarrow> (Inl InvalidOperation, s)
             | Some d \<Rightarrow>
                 (case lt_zero d of
                    Inl e \<Rightarrow> (Inl e, s)
                  | Inr True \<Rightarrow> (Inl (ValueError ''Balance is required to be positive.''), s)
                  | Inr False \<Rightarrow> update_balance env number bal s)))"

definition delete_statements ::
  "env \<Rightarrow> ('k::linorder) \<Rightarrow> 'k session \<Rightarrow> (error + 'k cursor) \<times> 'k session" where
  "delete_statements env number s =
     (case execute env (Delete_depositor number) s of
        (Inl e, s1) \<Rightarrow> (Inl e, s1)
      | (Inr c, s1) \<Rightarrow> execute env (Delete_account number) s1)"

definition account_delete ::
  "env \<Rightarrow> ('k::linorder) \<Rightarrow> 'k session \<Rightarrow> (error + 'k response) \<times> 'k session" where
  "account_delete env number s =
     (case connection env (transaction env (delete_statements env number)) s of
        (Inl e, s') \<Rightarrow> (Inl e, s')
      | (Inr c, s') \<Rightarrow> (Inr (Redirect EP_account_index), s'))"

definition ping :: "'k response" where
  "ping = Jsonify [(''message'', ''pong!''), (''status'', ''success'')]"

subsection \<open>The rate limiter\<close>

text \<open>
  \<^verbatim>\<open>
  limiter = Limiter(get_remote_address, app=app,
                    default_limits=["200 per day", "50 per hour"], ...)
  \<close>
  A limit is a number of requests and a window in seconds. The limiter's rules, as its
  documentation gives them: the default limits apply to every route that carries no
  limit of its own; a route decorated with \<open>limiter.limit\<close> has the decorated limits in
  place of the defaults (\<open>override_defaults\<close> is true unless the decorator says
  otherwise, and no decorator of the module does); a route decorated with
  \<open>limiter.exempt\<close> has none. Counters are kept for each client address, route and limit.
\<close>

type_synonym limit = "nat \<times> nat"

definition per_second :: nat where "per_second = 1"
definition per_hour :: nat where "per_hour = 3600"
definition per_day :: nat where "per_day = 86400"

definition default_limits :: "limit list" where
  "default_limits = [(200, per_day), (50, per_hour)]"

text \<open>The decorators of the module: \<open>@limiter.limit("1 per second")\<close> and \<open>@limiter.exempt\<close>.\<close>

fun decorated_limits :: "endpoint \<Rightarrow> limit list" where
  "decorated_limits EP_account_index = [(1, per_second)]"
| "decorated_limits EP_account_update_view = [(1, per_second)]"
| "decorated_limits EP_account_update_save = []"
| "decorated_limits EP_account_delete = []"
| "decorated_limits EP_ping = []"

fun exempt :: "endpoint \<Rightarrow> bool" where
  "exempt EP_ping = True"
| "exempt ep = False"

definition route_limits :: "endpoint \<Rightarrow> limit list" where
  "route_limits ep =
     (if exempt ep then []
      else if decorated_limits ep \<noteq> [] then decorated_limits ep
      else default_limits)"

text \<open>
  The storage and the strategy are the library's defaults: a counter for each key with
  the time its window ends. A hit after the window's end starts a new window of the
  limit's length; every hit is counted, and it is within the limit when the count, this
  hit included, does not pass the limit's number. Time is in whole seconds.
\<close>

type_synonym key = "string \<times> endpoint \<times> limit"
type_synonym storage = "key \<Rightarrow> (nat \<times> nat) option"

definition counted :: "storage \<Rightarrow> nat \<Rightarrow> key \<Rightarrow> nat" where
  "counted st now k = (case st k of None \<Rightarrow> 0 | Some (n, expiry) \<Rightarrow> if now < expiry then n else 0)"

definition window_end :: "storage \<Rightarrow> nat \<Rightarrow> key \<Rightarrow> nat" where
  "window_end st now k =
     (case st k of
        None \<Rightarrow> now + snd (snd (snd k))
      | Some (n, expiry) \<Rightarrow> if now < expiry then expiry else now + snd (snd (snd k)))"

definition hit :: "storage \<Rightarrow> nat \<Rightarrow> key \<Rightarrow> bool \<times> storage" where
  "hit st now k =
     (counted st now k + 1 \<le> fst (snd (snd k)),
      st(k \<mapsto> (counted st now k + 1, window_end st now k)))"

text \<open>Every limit in force on the route is hit; the request passes when all are within.\<close>

fun check_request_limit :: "storage \<Rightarrow> nat \<Rightarrow> string \<Rightarrow> endpoint \<Rightarrow> limit list \<Rightarrow> bool \<times> storage" where
  "check_request_limit st now addr ep [] = (True, st)"
| "check_request_limit st now addr ep (l # ls) =
     (case hit st now (addr, ep, l) of
        (ok, st1) \<Rightarrow>
          (case check_request_limit st1 now addr ep ls of
             (oks, st2) \<Rightarrow> (ok \<and> oks, st2)))"

subsection \<open>Requests\<close>

text \<open>
  The routes of the module, each with what the view function receives: \<open>GET /\<close> and
  \<open>GET /accounts\<close>, \<open>GET\<close> and \<open>POST /accounts/<account_number>/update\<close>,
  \<open>POST /accounts/<account_number>/delete\<close>, \<open>GET /ping\<close>.
\<close>

datatype 'k route =
    Get_accounts
  | Get_update 'k
  | Post_update 'k "string \<rightharpoonup> string"
  | Post_delete 'k
  | Get_ping

fun endpoint_of :: "'k route \<Rightarrow> endpoint" where
  "endpoint_of Get_accounts = EP_account_index"
| "endpoint_of (Get_update k) = EP_account_update_view"
| "endpoint_of (Post_update k form) = EP_account_update_save"
| "endpoint_of (Post_delete k) = EP_account_delete"
| "endpoint_of Get_ping = EP_ping"

fun view_function ::
  "env \<Rightarrow> ('k::linorder) route \<Rightarrow> 'k session \<Rightarrow> (error + 'k response) \<times> 'k session" where
  "view_function env Get_accounts s = account_index env s"
| "view_function env (Get_update k) s = account_update_view env k s"
| "view_function env (Post_update k form) s = account_update_save env form k s"
| "view_function env (Post_delete k) s = account_delete env k s"
| "view_function env Get_ping s = (Inr ping, s)"

record 'k request =
  remote_address :: string
  arrival :: nat
  route :: "'k route"

record 'k app =
  limiter :: storage
  db_session :: "'k session"

text \<open>
  A request first meets the limiter, keyed by \<open>get_remote_address\<close>; the view function
  runs only when no limit in force is exceeded.
\<close>

definition dispatch ::
  "env \<Rightarrow> ('k::linorder) request \<Rightarrow> 'k app \<Rightarrow> (error + 'k response) \<times> 'k app" where
  "dispatch env rq a =
     (let ep = endpoint_of (route rq)
      in case check_request_limit (limiter a) (arrival rq) (remote_address rq) ep (route_limits ep) of
           (ok, st) \<Rightarrow>
             if ok then
               (case view_function env (route rq) (db_session a) of
                  (r, s) \<Rightarrow> (r, \<lparr>limiter = st, db_session = s\<rparr>))
             else (Inl RateLimitExceeded, a\<lparr>limiter := st\<rparr>))"

text \<open>A run of requests, in order of arrival, with the response to each.\<close>

fun serve ::
  "env \<Rightarrow> ('k::linorder) request list \<Rightarrow> 'k app \<Rightarrow> (error + 'k response) list \<times> 'k app" where
  "serve env [] a = ([], a)"
| "serve env (rq # rqs) a =
     (case dispatch env rq a of
        (r, a1) \<Rightarrow> (case serve env rqs a1 of (rs, a2) \<Rightarrow> (r # rs, a2)))"

subsection \<open>The words of the specification\<close>

text \<open>
  The specification's helper \<open>is_valid_balance\<close>, from its words: true iff the input
  parses as an exact decimal number and its value is at least zero.
\<close>

definition is_valid_balance :: "string \<Rightarrow> bool" where
  "is_valid_balance input =
     (case Decimal input of
        Some (Finite sg c e) \<Rightarrow> c = 0 \<or> \<not> sg
      | _ \<Rightarrow> False)"

text \<open>
  The decimal module's grammar of numeric strings, as its documentation writes it:
  \<^verbatim>\<open>
  sign           ::=  '+' | '-'
  digits         ::=  digit [digit]...
  decimal-part   ::=  digits '.' [digits] | ['.'] digits
  exponent-part  ::=  indicator [sign] digits
  infinity       ::=  'Infinity' | 'Inf'
  nan            ::=  'NaN' [digits] | 'sNaN' [digits]
  numeric-value  ::=  decimal-part [exponent-part] | infinity
  numeric-string ::=  [sign] numeric-value | [sign] nan
  \<close>
  with letters in either case.
\<close>

definition digits :: "string \<Rightarrow> bool" where
  "digits ds = (ds \<noteq> [] \<and> list_all is_digit ds)"

definition opt_sign :: "string \<Rightarrow> bool" where
  "opt_sign sg = (sg = [] \<or> sg = ''+'' \<or> sg = ''-'')"

definition decimal_part :: "string \<Rightarrow> bool" where
  "decimal_part s =
     ((\<exists>a b. s = a @ ''.'' @ b \<and> digits a \<and> (b = [] \<or> digits b)) \<or>
      (\<exists>b. s = ''.'' @ b \<and> digits b) \<or>
      digits s)"

definition exponent_part :: "string \<Rightarrow> bool" where
  "exponent_part s =
     (\<exists>i sg ds. s = i # sg @ ds \<and> (i = CHR ''e'' \<or> i = CHR ''E'') \<and> opt_sign sg \<and> digits ds)"

definition infinity :: "string \<Rightarrow> bool" where
  "infinity s = (map lower s = ''infinity'' \<or> map lower s = ''inf'')"

definition nan :: "string \<Rightarrow> bool" where
  "nan s =
     (\<exists>p ds. s = p @ ds \<and> (map lower p = ''nan'' \<or> map lower p = ''snan'') \<and>
        (ds = [] \<or> digits ds))"

definition numeric_value :: "string \<Rightarrow> bool" where
  "numeric_value s =
     ((\<exists>d e. s = d @ e \<and> decimal_part d \<and> (e = [] \<or> exponent_part e)) \<or> infinity s)"

definition numeric_string :: "string \<Rightarrow> bool" where
  "numeric_string s = (\<exists>sg v. s = sg @ v \<and> opt_sign sg \<and> (numeric_value v \<or> nan v))"

text \<open>
  The three checks of \<open>account_update_save\<close> on the form field, by name:
  \<open>if not balance\<close>, \<open>if not is_decimal(balance)\<close>, \<open>if Decimal(balance) < 0\<close>. The third
  is passed when the comparison returns false; it is not when the comparison raises.
\<close>

definition check_presence :: "string \<Rightarrow> bool" where
  "check_presence bal = (bal \<noteq> [])"

definition check_decimal :: "string \<Rightarrow> bool" where
  "check_decimal bal = is_decimal bal"

definition check_non_negative :: "string \<Rightarrow> bool" where
  "check_non_negative bal =
     (case Decimal bal of None \<Rightarrow> False | Some d \<Rightarrow> lt_zero d = Inr False)"

text \<open>
  An environment in which the pool has a connection and the database refuses none of
  the \<open>n\<close> statements sent after the first \<open>m\<close>.
\<close>

definition accepts :: "env \<Rightarrow> nat \<Rightarrow> nat \<Rightarrow> bool" where
  "accepts env m n = (\<not> pool_timeout env \<and> (\<forall>i < n. \<not> fails env (m + i)))"

subsection \<open>A small bank, for the examples\<close>

text \<open>
  Three accounts, two depositors of account 202 and one of account 101; an idle
  connection on it; an environment in which nothing fails, and one in which the
  database refuses the third statement it is sent.
\<close>

definition bank :: "nat database" where
  "bank =
     \<lparr>account =
        [\<lparr>account_number = 101, branch_name = ''Downtown'', balance = ''500.00''\<rparr>,
         \<lparr>account_number = 303, branch_name = ''Central'', balance = ''0''\<rparr>,
         \<lparr>account_number = 202, branch_name = ''Uptown'', balance = ''1200.50''\<rparr>],
      depositor =
        [\<lparr>customer_name = ''Ana'', depositor_account_number = 202\<rparr>,
         \<lparr>customer_name = ''Eva'', depositor_account_number = 101\<rparr>,
         \<lparr>customer_name = ''Rui'', depositor_account_number = 202\<rparr>]\<rparr>"

definition idle :: "nat session" where
  "idle = \<lparr>committed = bank, pending = None, issued = []\<rparr>"

definition healthy :: env where
  "healthy = \<lparr>pool_timeout = False, fails = (\<lambda>n. False)\<rparr>"

definition third_statement_fails :: env where
  "third_statement_fails = \<lparr>pool_timeout = False, fails = (\<lambda>n. n = 2)\<rparr>"


text \<open>
  A client that asks for the listing every two seconds, fifty-one times; and a client
  that has used up its fifty requests of the hour on the delete route, with two more
  deletes inside that hour.
\<close>

definition listing :: "nat \<Rightarrow> nat request" where
  "listing t = \<lparr>remote_address = ''10.0.0.1'', arrival = t, route = Get_accounts\<rparr>"

definition fifty_one_listings :: "nat request list" where
  "fifty_one_listings = map (\<lambda>i. listing (2 * i)) [0..<51]"

definition deleting :: "nat \<Rightarrow> nat request" where
  "deleting t = \<lparr>remote_address = ''10.0.0.1'', arrival = t, route = Post_delete 202\<rparr>"

definition at_the_hourly_limit :: "nat app" where
  "at_the_hourly_limit =
     \<lparr>limiter = [(''10.0.0.1'', EP_account_delete, (50, 3600)) \<mapsto> (50, 3600)],
      db_session = idle\<rparr>"

section \<open>Properties\<close>

subsection \<open>Environments\<close>

lemma accepts_1: "accepts env m (Suc 0) = (\<not> pool_timeout env \<and> \<not> fails env m)"
  by (simp add: accepts_def)

lemma fails_within_4:
  "(\<exists>i<4. fails env (m + i)) =
     (fails env m \<or> fails env (Suc m) \<or> fails env (Suc (Suc m)) \<or> fails env (Suc (Suc (Suc m))))"
proof
  assume "\<exists>i<4. fails env (m + i)"
  then obtain i where i: "i < 4" and f: "fails env (m + i)"
    by blast
  from i consider "i = 0" | "i = Suc 0" | "i = Suc (Suc 0)" | "i = Suc (Suc (Suc 0))"
    by arith
  then show "fails env m \<or> fails env (Suc m) \<or> fails env (Suc (Suc m)) \<or> fails env (Suc (Suc (Suc m)))"
    using f by cases simp_all
next
  assume "fails env m \<or> fails env (Suc m) \<or> fails env (Suc (Suc m)) \<or> fails env (Suc (Suc (Suc m)))"
  then consider "fails env (m + 0)" | "fails env (m + 1)" | "fails env (m + 2)" | "fails env (m + 3)"
    by (auto simp add: numeral_2_eq_2 numeral_3_eq_3)
  then show "\<exists>i<4. fails env (m + i)"
  proof cases
    case 1
    moreover have "(0::nat) < 4" by simp
    ultimately show ?thesis by blast
  next
    case 2
    moreover have "(1::nat) < 4" by simp
    ultimately show ?thesis by blast
  next
    case 3
    moreover have "(2::nat) < 4" by simp
    ultimately show ?thesis by blast
  next
    case 4
    moreover have "(3::nat) < 4" by simp
    ultimately show ?thesis by blast
  qed
qed

lemma accepts_4:
  "accepts env m 4 =
     (\<not> pool_timeout env \<and> \<not> fails env m \<and> \<not> fails env (Suc m) \<and> \<not> fails env (Suc (Suc m)) \<and>
      \<not> fails env (Suc (Suc (Suc m))))"
proof -
  have "(\<forall>i<4. \<not> fails env (m + i)) = (\<not> (\<exists>i<4. fails env (m + i)))"
    by blast
  then show ?thesis
    unfolding accepts_def fails_within_4 by blast
qed

lemma accepts_split: "accepts env m (a + b) = (accepts env m a \<and> accepts env (m + a) b)"
proof -
  have "(\<forall>i<a + b. \<not> fails env (m + i)) =
      ((\<forall>i<a. \<not> fails env (m + i)) \<and> (\<forall>i<b. \<not> fails env (m + a + i)))"
  proof (intro iffI conjI allI impI)
    fix i
    assume "\<forall>i<a + b. \<not> fails env (m + i)" and "i < a"
    then show "\<not> fails env (m + i)" by simp
  next
    fix i
    assume "\<forall>i<a + b. \<not> fails env (m + i)" and "i < b"
    then have "\<not> fails env (m + (a + i))" by simp
    then show "\<not> fails env (m + a + i)" by (simp add: add.assoc)
  next
    fix i
    assume h: "(\<forall>i<a. \<not> fails env (m + i)) \<and> (\<forall>i<b. \<not> fails env (m + a + i))" and i: "i < a + b"
    show "\<not> fails env (m + i)"
    proof (cases "i < a")
      case True
      with h show ?thesis by simp
    next
      case False
      with i have "i - a < b" by simp
      with h have "\<not> fails env (m + a + (i - a))" by blast
      with False show ?thesis by (simp add: add.assoc)
    qed
  qed
  then show ?thesis
    unfolding accepts_def by blast
qed

lemma accepts_healthy: "accepts healthy m n"
  by (simp add: accepts_def healthy_def)

subsection \<open>Rows with and without a key\<close>

lemma filter_absent: "k \<notin> f ` set xs \<Longrightarrow> filter (\<lambda>r. f r \<noteq> k) xs = xs"
  by (induction xs) auto

lemma filter_absent_eq: "k \<notin> f ` set xs \<Longrightarrow> filter (\<lambda>r. f r = k) xs = []"
  by (induction xs) auto

lemma map_absent: "k \<notin> f ` set xs \<Longrightarrow> map (\<lambda>r. if f r = k then g r else r) xs = xs"
  by (induction xs) auto

subsection \<open>Evaluating the constructor\<close>

lemmas decimal_eval = Decimal_def strip_def remove_underscores_def isspace_def parse_number_def
  is_digit_def parse_infinity_def lower_def int_of_digits_def digit_val_def

lemma Decimal_minus_5: "Decimal ''-5'' = Some (Finite True 5 0)"
  by (simp add: decimal_eval)

lemma Decimal_NaN: "Decimal ''NaN'' = Some (NaN False False 0)"
  by (simp add: decimal_eval)

lemma Decimal_Infinity: "Decimal ''Infinity'' = Some (Infinite False)"
  by (simp add: decimal_eval)

lemma Decimal_750_50: "Decimal ''750.50'' = Some (Finite False 75050 (- 2))"
  by (simp add: decimal_eval)

lemma Decimal_abc: "Decimal ''abc'' = None"
  by (simp add: decimal_eval)

subsection \<open>The update handler\<close>

lemma update_balance_issued:
  "\<not> pool_timeout env \<Longrightarrow> issued (snd (update_balance env k b s)) = issued s @ [Update_account k b]"
  by (simp add: update_balance_def connection_def execute_def perform_def refuse_def Let_def
      split: prod.splits option.splits)

lemma update_balance_redirect:
  "accepts env (length (issued s)) 1 \<Longrightarrow> fst (update_balance env k b s) = Inr (Redirect EP_account_index)"
  by (simp add: update_balance_def connection_def execute_def perform_def accepts_1 Let_def
      split: prod.splits option.splits)

lemma update_balance_autocommit:
  "accepts env (length (issued s)) 1 \<Longrightarrow> pending s = None \<Longrightarrow>
   update_balance env k b s =
     (Inr (Redirect EP_account_index),
      s\<lparr>committed := snd (run (Update_account k b) (committed s)),
        issued := issued s @ [Update_account k b]\<rparr>)"
  by (simp add: update_balance_def connection_def execute_def perform_def accepts_1 Let_def)

lemma account_update_save_passes:
  "form ''balance'' = Some bal \<Longrightarrow> check_presence bal \<Longrightarrow> check_decimal bal \<Longrightarrow>
   check_non_negative bal \<Longrightarrow> account_update_save env form k s = update_balance env k bal s"
  by (auto simp add: account_update_save_def check_presence_def check_decimal_def
      check_non_negative_def split: option.splits sum.splits bool.splits)

lemma checks_750_50:
  "check_presence ''750.50'' \<and> check_decimal ''750.50'' \<and> check_non_negative ''750.50''"
  by (simp add: check_presence_def check_decimal_def check_non_negative_def is_decimal_def
      Decimal_750_50)

text \<open>
  C3. A \<open>POST\<close> update whose balance field is missing or fails one of the three checks
  (presence, decimal format, not below zero) ends with an exception and the session as
  it was: no statement has been sent and no table has changed. A request whose balance
  passes the three checks goes on to the database: with a connection the handler sends
  the one \<open>UPDATE\<close> for that account and balance, and when the database accepts the
  statement the response is the redirect to the listing.
\<close>

theorem account_update_save_validation:
  "(form ''balance'' = None \<longrightarrow> account_update_save env form k s = (Inl BadRequestKeyError, s)) \<and>
   (form ''balance'' = Some bal \<and> \<not> check_presence bal \<longrightarrow>
      account_update_save env form k s = (Inl (ValueError ''Balance is required.''), s)) \<and>
   (form ''balance'' = Some bal \<and> check_presence bal \<and> \<not> check_decimal bal \<longrightarrow>
      account_update_save env form k s = (Inl (ValueError ''Balance is required to be decimal.''), s)) \<and>
   (form ''balance'' = Some bal \<and> check_presence bal \<and> check_decimal bal \<and> \<not> check_non_negative bal \<longrightarrow>
      account_update_save env form k s = (Inl (ValueError ''Balance is required to be positive.''), s) \<or>
      account_update_save env form k s = (Inl InvalidOperation, s)) \<and>
   (form ''balance'' = Some bal \<and> check_presence bal \<and> check_decimal bal \<and> check_non_negative bal \<longrightarrow>
      account_update_save env form k s = update_balance env k bal s \<and>
      (\<not> pool_timeout env \<longrightarrow>
         issued (snd (account_update_save env form k s)) = issued s @ [Update_account k bal]) \<and>
      (accepts env (length (issued s)) 1 \<longrightarrow>
         fst (account_update_save env form k s) = Inr (Redirect EP_account_index)))"
proof (intro conjI impI)
  assume "form ''balance'' = None"
  then show "account_update_save env form k s = (Inl BadRequestKeyError, s)"
    by (simp add: account_update_save_def)
next
  assume "form ''balance'' = Some bal \<and> \<not> check_presence bal"
  then show "account_update_save env form k s = (Inl (ValueError ''Balance is required.''), s)"
    by (simp add: account_update_save_def check_presence_def)
next
  assume "form ''balance'' = Some bal \<and> check_presence bal \<and> \<not> check_decimal bal"
  then show "account_update_save env form k s = (Inl (ValueError ''Balance is required to be decimal.''), s)"
    by (simp add: account_update_save_def check_presence_def check_decimal_def)
next
  assume "form ''balance'' = Some bal \<and> check_presence bal \<and> check_decimal bal \<and> \<not> check_non_negative bal"
  then show "account_update_save env form k s = (Inl (ValueError ''Balance is required to be positive.''), s) \<or>
      account_update_save env form k s = (Inl InvalidOperation, s)"
    by (cases "Decimal bal"; cases "lt_zero (the (Decimal bal))")
       (auto simp add: account_update_save_def check_presence_def check_decimal_def
          check_non_negative_def elim: lt_zero.elims)
next
  assume h: "form ''balance'' = Some bal \<and> check_presence bal \<and> check_decimal bal \<and> check_non_negative bal"
  then show eq: "account_update_save env form k s = update_balance env k bal s"
    by (simp add: account_update_save_passes)
  { assume "\<not> pool_timeout env"
    then show "issued (snd (account_update_save env form k s)) = issued s @ [Update_account k bal]"
      by (simp add: eq update_balance_issued) }
  { assume "accepts env (length (issued s)) 1"
    then show "fst (account_update_save env form k s) = Inr (Redirect EP_account_index)"
      by (simp add: eq update_balance_redirect) }
qed

theorem account_update_save_validation_witness:
  "account_update_save healthy [''balance'' \<mapsto> ''abc''] 101 idle =
     (Inl (ValueError ''Balance is required to be decimal.''), idle) \<and>
   fst (account_update_save healthy [''balance'' \<mapsto> ''750.50''] 101 idle) =
     Inr (Redirect EP_account_index) \<and>
   issued (snd (account_update_save healthy [''balance'' \<mapsto> ''750.50''] 101 idle)) =
     [Update_account 101 ''750.50'']"
proof -
  have bad: "[''balance'' \<mapsto> ''abc''] ''balance'' = Some ''abc'' \<and> check_presence ''abc'' \<and>
      \<not> check_decimal ''abc''"
    by (simp add: check_presence_def check_decimal_def is_decimal_def Decimal_abc)
  have good: "[''balance'' \<mapsto> ''750.50''] ''balance'' = Some ''750.50'' \<and> check_presence ''750.50'' \<and>
      check_decimal ''750.50'' \<and> check_non_negative ''750.50''"
    by (simp add: checks_750_50)
  have env: "\<not> pool_timeout healthy" "accepts healthy (length (issued idle)) 1"
    by (simp_all add: accepts_healthy) (simp add: healthy_def)
  have "account_update_save healthy [''balance'' \<mapsto> ''abc''] 101 idle =
     (Inl (ValueError ''Balance is required to be decimal.''), idle)"
    using bad account_update_save_validation [of "[''balance'' \<mapsto> ''abc'']" healthy 101 idle "''abc''"]
    by blast
  moreover have "fst (account_update_save healthy [''balance'' \<mapsto> ''750.50''] 101 idle) =
       Inr (Redirect EP_account_index) \<and>
     issued (snd (account_update_save healthy [''balance'' \<mapsto> ''750.50''] 101 idle)) =
       issued idle @ [Update_account 101 ''750.50'']"
    using good env
      account_update_save_validation [of "[''balance'' \<mapsto> ''750.50'']" healthy 101 idle "''750.50''"]
    by blast
  moreover have "issued idle = []"
    by (simp add: idle_def)
  ultimately show ?thesis by simp
qed

text \<open>
  C4. \<open>is_decimal\<close> is true of \<open>NaN\<close> and of \<open>Infinity\<close>. In the update handler the balance
  \<open>Infinity\<close> passes the three checks, so the handler goes on to the database and, with
  a connection, sends the \<open>UPDATE\<close> with that balance; the balance \<open>NaN\<close> makes the
  comparison with zero raise \<open>InvalidOperation\<close>, which nothing catches: the handler ends
  with that exception and has sent no statement.
\<close>

theorem nan_and_infinity_in_update:
  "is_decimal ''NaN'' \<and> is_decimal ''Infinity'' \<and>
   account_update_save env [''balance'' \<mapsto> ''Infinity''] k s = update_balance env k ''Infinity'' s \<and>
   (\<not> pool_timeout env \<longrightarrow>
      issued (snd (account_update_save env [''balance'' \<mapsto> ''Infinity''] k s)) =
        issued s @ [Update_account k ''Infinity'']) \<and>
   account_update_save env [''balance'' \<mapsto> ''NaN''] k s = (Inl InvalidOperation, s)"
proof -
  have inf: "account_update_save env [''balance'' \<mapsto> ''Infinity''] k s = update_balance env k ''Infinity'' s"
    by (simp add: account_update_save_def is_decimal_def Decimal_Infinity)
  have nan: "account_update_save env [''balance'' \<mapsto> ''NaN''] k s = (Inl InvalidOperation, s)"
    by (simp add: account_update_save_def is_decimal_def Decimal_NaN)
  show ?thesis
    using inf nan by (simp add: is_decimal_def Decimal_NaN Decimal_Infinity update_balance_issued)
qed

theorem nan_and_infinity_in_update_witness:
  "issued (snd (account_update_save healthy [''balance'' \<mapsto> ''Infinity''] 101 idle)) =
     [Update_account 101 ''Infinity'']"
proof -
  have "\<not> pool_timeout healthy"
    by (simp add: healthy_def)
  with nan_and_infinity_in_update [of healthy 101 idle]
  have "issued (snd (account_update_save healthy [''balance'' \<mapsto> ''Infinity''] 101 idle)) =
     issued idle @ [Update_account 101 ''Infinity'']"
    by blast
  then show ?thesis by (simp add: idle_def)
qed

text \<open>
  C7. A \<open>POST\<close> update with a balance that passes the checks, for an account number that
  no row of \<open>account\<close> has: the \<open>UPDATE\<close> affects zero rows, the tables are as they were
  (the session differs only by the statement sent), nothing is raised, and the response
  is the redirect to the listing. The connection is idle and the database accepts the
  statement.
\<close>

theorem update_missing_account_noop:
  "form ''balance'' = Some bal \<Longrightarrow> check_presence bal \<Longrightarrow> check_decimal bal \<Longrightarrow>
   check_non_negative bal \<Longrightarrow> k \<notin> account_number ` set (account (committed s)) \<Longrightarrow>
   pending s = None \<Longrightarrow> accepts env (length (issued s)) 1 \<Longrightarrow>
   account_update_save env form k s =
     (Inr (Redirect EP_account_index), s\<lparr>issued := issued s @ [Update_account k bal]\<rparr>) \<and>
   rowcount (fst (run (Update_account k bal) (committed s))) = 0"
  by (simp add: account_update_save_passes update_balance_autocommit map_absent filter_absent_eq)

theorem update_missing_account_noop_witness:
  "account_update_save healthy [''balance'' \<mapsto> ''750.50''] 404 idle =
     (Inr (Redirect EP_account_index), idle\<lparr>issued := [Update_account 404 ''750.50'']\<rparr>) \<and>
   rowcount (fst (run (Update_account 404 ''750.50'') bank)) = 0"
proof -
  have absent: "404 \<notin> account_number ` set (account (committed idle))"
    by (simp add: idle_def bank_def)
  have "account_update_save healthy [''balance'' \<mapsto> ''750.50''] 404 idle =
     (Inr (Redirect EP_account_index), idle\<lparr>issued := issued idle @ [Update_account 404 ''750.50'']\<rparr>) \<and>
   rowcount (fst (run (Update_account 404 ''750.50'') (committed idle))) = 0"
    using absent checks_750_50
    by (intro update_missing_account_noop) (simp_all add: accepts_healthy, simp add: idle_def)
  then show ?thesis by (simp add: idle_def)
qed

subsection \<open>The delete handler\<close>

text \<open>What \<open>account_delete\<close> returns and leaves, by the first thing that fails.\<close>

lemma account_delete_eq:
  "account_delete env k s =
     (let n = length (issued s) in
      if pool_timeout env then (Inl PoolTimeout, s)
      else if fails env n then (Inl DatabaseError, s\<lparr>issued := issued s @ [Begin]\<rparr>)
      else if fails env (Suc n) then
        (Inl DatabaseError, s\<lparr>pending := None, issued := issued s @ [Begin, Delete_depositor k, Rollback]\<rparr>)
      else if fails env (Suc (Suc n)) then
        (Inl DatabaseError,
         s\<lparr>pending := None, issued := issued s @ [Begin, Delete_depositor k, Delete_account k, Rollback]\<rparr>)
      else if fails env (Suc (Suc (Suc n))) then
        (Inl DatabaseError,
         s\<lparr>pending := None, issued := issued s @ [Begin, Delete_depositor k, Delete_account k, Commit]\<rparr>)
      else
        (Inr (Redirect EP_account_index),
         s\<lparr>committed := snd (run (Delete_account k) (snd (run (Delete_depositor k) (committed s)))),
           pending := None,
           issued := issued s @ [Begin, Delete_depositor k, Delete_account k, Commit]\<rparr>))"
  by (simp add: account_delete_def connection_def transaction_def delete_statements_def execute_def
      perform_def refuse_def Let_def)

text \<open>
  C2. For every account number, what \<open>account_delete\<close> sends is a beginning of
  \<open>BEGIN\<close>, the \<open>DELETE\<close> on \<open>depositor\<close>, the \<open>DELETE\<close> on \<open>account\<close>, \<open>COMMIT\<close>, in that order,
  closed by \<open>ROLLBACK\<close> where a \<open>DELETE\<close> was refused; when nothing fails it is the whole
  sequence. When one of the four statements of the transaction fails, the handler ends
  with \<open>DatabaseError\<close> and both tables are exactly as before the request; so they are
  whenever the handler ends with an exception, and no transaction is left open.
\<close>

theorem account_delete_atomic:
  "(\<exists>tr. issued (snd (account_delete env k s)) = issued s @ tr \<and>
      tr \<in> set [[], [Begin], [Begin, Delete_depositor k, Rollback],
                [Begin, Delete_depositor k, Delete_account k, Rollback],
                [Begin, Delete_depositor k, Delete_account k, Commit]]) \<and>
   (accepts env (length (issued s)) 4 \<longrightarrow>
      fst (account_delete env k s) = Inr (Redirect EP_account_index) \<and>
      issued (snd (account_delete env k s)) =
        issued s @ [Begin, Delete_depositor k, Delete_account k, Commit]) \<and>
   (\<not> pool_timeout env \<and> (\<exists>i<4. fails env (length (issued s) + i)) \<longrightarrow>
      fst (account_delete env k s) = Inl DatabaseError \<and>
      committed (snd (account_delete env k s)) = committed s) \<and>
   (isl (fst (account_delete env k s)) \<longrightarrow> committed (snd (account_delete env k s)) = committed s) \<and>
   (pending s = None \<longrightarrow> pending (snd (account_delete env k s)) = None)"
proof (intro conjI impI)
  show "\<exists>tr. issued (snd (account_delete env k s)) = issued s @ tr \<and>
      tr \<in> set [[], [Begin], [Begin, Delete_depositor k, Rollback],
                [Begin, Delete_depositor k, Delete_account k, Rollback],
                [Begin, Delete_depositor k, Delete_account k, Commit]]"
    by (simp add: account_delete_eq Let_def)
next
  assume "accepts env (length (issued s)) 4"
  then show "fst (account_delete env k s) = Inr (Redirect EP_account_index)"
    and "issued (snd (account_delete env k s)) =
        issued s @ [Begin, Delete_depositor k, Delete_account k, Commit]"
    by (simp_all add: account_delete_eq accepts_4 Let_def)
next
  assume "\<not> pool_timeout env \<and> (\<exists>i<4. fails env (length (issued s) + i))"
  then have "\<not> pool_timeout env"
    and "fails env (length (issued s)) \<or> fails env (Suc (length (issued s))) \<or>
      fails env (Suc (Suc (length (issued s)))) \<or> fails env (Suc (Suc (Suc (length (issued s)))))"
    by (simp_all add: fails_within_4)
  then show "fst (account_delete env k s) = Inl DatabaseError"
    and "committed (snd (account_delete env k s)) = committed s"
    by (auto simp add: account_delete_eq Let_def)
next
  assume "isl (fst (account_delete env k s))"
  then show "committed (snd (account_delete env k s)) = committed s"
    by (simp add: account_delete_eq Let_def split: if_splits)
next
  assume "pending s = None"
  then show "pending (snd (account_delete env k s)) = None"
    by (simp add: account_delete_eq Let_def)
qed

theorem account_delete_atomic_witness:
  "fst (account_delete third_statement_fails 202 idle) = Inl DatabaseError \<and>
   committed (snd (account_delete third_statement_fails 202 idle)) = bank"
proof -
  have "fails third_statement_fails (length (issued idle) + 2)"
    by (simp add: third_statement_fails_def idle_def)
  then have "\<exists>i<4. fails third_statement_fails (length (issued idle) + i)"
    by (intro exI [of _ 2]) simp
  moreover have "\<not> pool_timeout third_statement_fails"
    by (simp add: third_statement_fails_def)
  ultimately have "fst (account_delete third_statement_fails 202 idle) = Inl DatabaseError \<and>
      committed (snd (account_delete third_statement_fails 202 idle)) = committed idle"
    using account_delete_atomic [of third_statement_fails 202 idle] by blast
  then show ?thesis by (simp add: idle_def)
qed

text \<open>
  C5. For every state of the database and every account number, the rows of \<open>account\<close>
  and of \<open>depositor\<close> with another account number are after the delete operation what
  they were before, whatever fails; and when nothing fails, the rows left in the two
  tables are exactly those with another account number: every depositor row and every
  account row with the given number is gone, and no other.
\<close>

theorem account_delete_frame:
  "filter (\<lambda>r. account_number r \<noteq> k) (account (committed (snd (account_delete env k s)))) =
     filter (\<lambda>r. account_number r \<noteq> k) (account (committed s)) \<and>
   filter (\<lambda>r. depositor_account_number r \<noteq> k) (depositor (committed (snd (account_delete env k s)))) =
     filter (\<lambda>r. depositor_account_number r \<noteq> k) (depositor (committed s)) \<and>
   (accepts env (length (issued s)) 4 \<longrightarrow>
      account (committed (snd (account_delete env k s))) =
        filter (\<lambda>r. account_number r \<noteq> k) (account (committed s)) \<and>
      depositor (committed (snd (account_delete env k s))) =
        filter (\<lambda>r. depositor_account_number r \<noteq> k) (depositor (committed s)))"
  by (simp add: account_delete_eq accepts_4 Let_def)

theorem account_delete_frame_witness:
  "account (committed (snd (account_delete healthy 202 idle))) =
     [\<lparr>account_number = 101, branch_name = ''Downtown'', balance = ''500.00''\<rparr>,
      \<lparr>account_number = 303, branch_name = ''Central'', balance = ''0''\<rparr>] \<and>
   depositor (committed (snd (account_delete healthy 202 idle))) =
     [\<lparr>customer_name = ''Eva'', depositor_account_number = 101\<rparr>]"
proof -
  have "account (committed (snd (account_delete healthy 202 idle))) =
        filter (\<lambda>r. account_number r \<noteq> 202) (account (committed idle)) \<and>
      depositor (committed (snd (account_delete healthy 202 idle))) =
        filter (\<lambda>r. depositor_account_number r \<noteq> 202) (depositor (committed idle))"
    using account_delete_frame [of 202 healthy idle] accepts_healthy by blast
  then show ?thesis by (simp add: idle_def bank_def)
qed

text \<open>
  C6. When no row of \<open>account\<close> and none of \<open>depositor\<close> has the given account number and
  nothing fails, the delete operation raises nothing, redirects to the listing, leaves
  both tables as they were, and each of its two \<open>DELETE\<close> statements affects zero rows.
  So a second delete right after a first, for any account number, redirects as well and
  leaves the tables as the first left them.
\<close>

theorem account_delete_idempotent:
  "(accepts env (length (issued s)) 4 \<and>
    k \<notin> account_number ` set (account (committed s)) \<and>
    k \<notin> depositor_account_number ` set (depositor (committed s)) \<longrightarrow>
      fst (account_delete env k s) = Inr (Redirect EP_account_index) \<and>
      committed (snd (account_delete env k s)) = committed s \<and>
      rowcount (fst (run (Delete_depositor k) (committed s))) = 0 \<and>
      rowcount (fst (run (Delete_account k) (snd (run (Delete_depositor k) (committed s))))) = 0) \<and>
   (accepts env (length (issued s)) 8 \<longrightarrow>
      fst (account_delete env k (snd (account_delete env k s))) = Inr (Redirect EP_account_index) \<and>
      committed (snd (account_delete env k (snd (account_delete env k s)))) =
        committed (snd (account_delete env k s)))"
proof (intro conjI impI)
  assume h: "accepts env (length (issued s)) 4 \<and>
    k \<notin> account_number ` set (account (committed s)) \<and>
    k \<notin> depositor_account_number ` set (depositor (committed s))"
  then show "fst (account_delete env k s) = Inr (Redirect EP_account_index)"
    by (simp add: account_delete_eq accepts_4 Let_def)
  from h show "committed (snd (account_delete env k s)) = committed s"
    by (simp add: account_delete_eq accepts_4 Let_def filter_absent)
  from h show "rowcount (fst (run (Delete_depositor k) (committed s))) = 0"
    by (simp add: filter_absent_eq)
  from h show "rowcount (fst (run (Delete_account k) (snd (run (Delete_depositor k) (committed s))))) = 0"
    by (simp add: filter_absent_eq)
next
  assume "accepts env (length (issued s)) 8"
  then have "accepts env (length (issued s)) (4 + 4)" by simp
  then have a: "accepts env (length (issued s)) 4" and b: "accepts env (length (issued s) + 4) 4"
    unfolding accepts_split by simp_all
  have len: "length (issued (snd (account_delete env k s))) = length (issued s) + 4"
    using a by (simp add: account_delete_eq accepts_4 Let_def)
  from b have b': "accepts env (length (issued (snd (account_delete env k s)))) 4"
    by (simp only: len)
  show "fst (account_delete env k (snd (account_delete env k s))) = Inr (Redirect EP_account_index)"
    using b' by (simp add: account_delete_eq [of env k "snd (account_delete env k s)"] accepts_4 Let_def)
  have "committed (snd (account_delete env k (snd (account_delete env k s)))) =
      snd (run (Delete_account k) (snd (run (Delete_depositor k) (committed (snd (account_delete env k s))))))"
    using b' by (simp add: account_delete_eq [of env k "snd (account_delete env k s)"] accepts_4 Let_def)
  also have "\<dots> = committed (snd (account_delete env k s))"
    using a by (simp add: account_delete_eq [of env k s] accepts_4 Let_def)
  finally show "committed (snd (account_delete env k (snd (account_delete env k s)))) =
        committed (snd (account_delete env k s))" .
qed

theorem account_delete_idempotent_witness:
  "fst (account_delete healthy 404 idle) = Inr (Redirect EP_account_index) \<and>
   committed (snd (account_delete healthy 404 idle)) = bank \<and>
   fst (account_delete healthy 202 (snd (account_delete healthy 202 idle))) =
     Inr (Redirect EP_account_index) \<and>
   committed (snd (account_delete healthy 202 (snd (account_delete healthy 202 idle)))) =
     committed (snd (account_delete healthy 202 idle))"
proof -
  have absent: "404 \<notin> account_number ` set (account (committed idle)) \<and>
      404 \<notin> depositor_account_number ` set (depositor (committed idle))"
    by (simp add: idle_def bank_def)
  have "fst (account_delete healthy 404 idle) = Inr (Redirect EP_account_index) \<and>
      committed (snd (account_delete healthy 404 idle)) = committed idle"
    using absent accepts_healthy account_delete_idempotent [of healthy idle 404] by blast
  moreover have "fst (account_delete healthy 202 (snd (account_delete healthy 202 idle))) =
       Inr (Redirect EP_account_index) \<and>
     committed (snd (account_delete healthy 202 (snd (account_delete healthy 202 idle)))) =
       committed (snd (account_delete healthy 202 idle))"
    using accepts_healthy account_delete_idempotent [of healthy idle 202] by blast
  ultimately show ?thesis by (simp add: idle_def)
qed

subsection \<open>The listing\<close>

lemma sorted_desc_order_by:
  "sorted_wrt (\<lambda>a b. account_number a \<ge> account_number b) (order_by_account_number_desc rs)"
proof -
  have "sorted (map account_number (sort_key account_number rs))"
    by (rule sorted_sort_key)
  then have "sorted_wrt (\<lambda>a b. account_number a \<le> account_number b) (sort_key account_number rs)"
    by (simp add: sorted_map)
  then show ?thesis
    by (simp add: order_by_account_number_desc_def sorted_wrt_rev)
qed

lemma mset_order_by: "mset (order_by_account_number_desc rs) = mset rs"
  by (simp add: order_by_account_number_desc_def)

text \<open>
  C8. For every state of the database, the listing (on an idle connection, the
  database accepting the statement) renders the index page with all the rows of
  \<open>account\<close>, each as often as the table has it and none else, in descending order of
  account number; it sends the one \<open>SELECT\<close> and changes nothing.
\<close>

theorem account_index_all_rows_descending:
  "accepts env (length (issued s)) 1 \<Longrightarrow> pending s = None \<Longrightarrow>
   \<exists>rows. account_index env s =
       (Inr (Render_index rows), s\<lparr>issued := issued s @ [Select_accounts]\<rparr>) \<and>
     mset rows = mset (account (committed s)) \<and>
     length rows = length (account (committed s)) \<and>
     sorted_wrt (\<lambda>a b. account_number a \<ge> account_number b) rows"
proof -
  assume a: "accepts env (length (issued s)) 1" and p: "pending s = None"
  have "account_index env s =
      (Inr (Render_index (order_by_account_number_desc (account (committed s)))),
       s\<lparr>issued := issued s @ [Select_accounts]\<rparr>)"
    using a p by (simp add: account_index_def connection_def execute_def perform_def accepts_1 Let_def)
  moreover have "length (order_by_account_number_desc (account (committed s))) = length (account (committed s))"
    by (simp add: order_by_account_number_desc_def)
  ultimately show ?thesis
    using sorted_desc_order_by mset_order_by by blast
qed

theorem account_index_all_rows_descending_witness:
  "\<exists>rows. account_index healthy idle =
       (Inr (Render_index rows), idle\<lparr>issued := [Select_accounts]\<rparr>) \<and>
     mset rows = mset (account bank) \<and>
     length rows = length (account bank) \<and>
     sorted_wrt (\<lambda>a b. account_number a \<ge> account_number b) rows"
proof -
  have "pending idle = None"
    by (simp add: idle_def)
  with accepts_healthy account_index_all_rows_descending [of healthy idle]
  have "\<exists>rows. account_index healthy idle =
       (Inr (Render_index rows), idle\<lparr>issued := issued idle @ [Select_accounts]\<rparr>) \<and>
     mset rows = mset (account (committed idle)) \<and>
     length rows = length (account (committed idle)) \<and>
     sorted_wrt (\<lambda>a b. account_number a \<ge> account_number b) rows"
    by blast
  then show ?thesis by (simp add: idle_def)
qed

subsection \<open>The rate limiter\<close>

text \<open>No view function raises the limiter's exception.\<close>

lemma lt_zero_error: "lt_zero d = Inl e \<Longrightarrow> e = InvalidOperation"
  by (cases d) simp_all

lemma connection_not_rate_limited:
  "(\<And>s'. fst (block s') \<noteq> Inl RateLimitExceeded) \<Longrightarrow>
   fst (connection env block s) \<noteq> Inl RateLimitExceeded"
  by (simp add: connection_def)

lemma execute_not_rate_limited: "fst (execute env st s) \<noteq> Inl RateLimitExceeded"
  by (simp add: execute_def Let_def split: prod.splits)

lemma account_index_not_rate_limited: "fst (account_index env s) \<noteq> Inl RateLimitExceeded"
  unfolding account_index_def
  by (rule connection_not_rate_limited) (simp add: execute_def Let_def split: prod.splits sum.splits)

lemma account_update_view_not_rate_limited:
  "fst (account_update_view env k s) \<noteq> Inl RateLimitExceeded"
  unfolding account_update_view_def
  by (rule connection_not_rate_limited) (simp add: execute_def Let_def split: prod.splits sum.splits)

lemma update_balance_not_rate_limited: "fst (update_balance env k b s) \<noteq> Inl RateLimitExceeded"
  unfolding update_balance_def
  by (rule connection_not_rate_limited) (simp add: execute_def Let_def split: prod.splits sum.splits)

lemma account_update_save_not_rate_limited:
  "fst (account_update_save env form k s) \<noteq> Inl RateLimitExceeded"
  by (auto simp add: account_update_save_def update_balance_not_rate_limited
      split: option.splits sum.splits bool.splits dest: lt_zero_error)

lemma account_delete_not_rate_limited: "fst (account_delete env k s) \<noteq> Inl RateLimitExceeded"
  by (simp add: account_delete_def connection_def transaction_def delete_statements_def
      execute_def Let_def split: prod.splits sum.splits)

lemma view_function_not_rate_limited: "fst (view_function env r s) \<noteq> Inl RateLimitExceeded"
  by (cases r)
     (simp_all add: account_index_not_rate_limited account_update_view_not_rate_limited
        account_update_save_not_rate_limited account_delete_not_rate_limited)

lemma distinct_route_limits: "distinct (route_limits ep)"
  by (cases ep) (simp_all add: route_limits_def default_limits_def per_day_def per_hour_def)

lemma hit_other: "k' \<noteq> k \<Longrightarrow> snd (hit st now k) k' = st k'"
  by (simp add: hit_def)

lemma hit_same: "snd (hit st now k) k = Some (counted st now k + 1, window_end st now k)"
  by (simp add: hit_def)

lemma counted_cong: "st' k = st k \<Longrightarrow> counted st' now k = counted st now k"
  by (simp add: counted_def)

lemma check_request_limit_Cons:
  "check_request_limit st now addr ep (l # ls) =
     (fst (hit st now (addr, ep, l)) \<and>
        fst (check_request_limit (snd (hit st now (addr, ep, l))) now addr ep ls),
      snd (check_request_limit (snd (hit st now (addr, ep, l))) now addr ep ls))"
  by (simp split: prod.splits)

lemma dispatch_eq:
  "dispatch env rq a =
     (if fst (check_request_limit (limiter a) (arrival rq) (remote_address rq) (endpoint_of (route rq))
                (route_limits (endpoint_of (route rq))))
      then (fst (view_function env (route rq) (db_session a)),
            \<lparr>limiter = snd (check_request_limit (limiter a) (arrival rq) (remote_address rq)
                              (endpoint_of (route rq)) (route_limits (endpoint_of (route rq)))),
             db_session = snd (view_function env (route rq) (db_session a))\<rparr>)
      else (Inl RateLimitExceeded,
            a\<lparr>limiter := snd (check_request_limit (limiter a) (arrival rq) (remote_address rq)
                              (endpoint_of (route rq)) (route_limits (endpoint_of (route rq))))\<rparr>))"
  by (simp add: dispatch_def Let_def split: prod.splits)

lemma serve_Cons:
  "serve env (rq # rqs) a =
     (fst (dispatch env rq a) # fst (serve env rqs (snd (dispatch env rq a))),
      snd (serve env rqs (snd (dispatch env rq a))))"
  by (simp split: prod.splits)

lemma check_request_limit_other:
  "l \<notin> set ls \<Longrightarrow> snd (check_request_limit st now addr ep ls) (addr, ep, l) = st (addr, ep, l)"
proof (induction ls arbitrary: st)
  case Nil
  then show ?case by simp
next
  case (Cons a ls)
  then have "l \<noteq> a" and "l \<notin> set ls" by simp_all
  then have "snd (check_request_limit (snd (hit st now (addr, ep, a))) now addr ep ls) (addr, ep, l) =
      snd (hit st now (addr, ep, a)) (addr, ep, l)"
    using Cons.IH by blast
  also have "\<dots> = st (addr, ep, l)"
    using \<open>l \<noteq> a\<close> by (simp add: hit_other)
  finally show ?case
    by (simp only: check_request_limit_Cons snd_conv)
qed

lemma check_request_limit_same:
  "distinct ls \<Longrightarrow> l \<in> set ls \<Longrightarrow>
   snd (check_request_limit st now addr ep ls) (addr, ep, l) =
     Some (counted st now (addr, ep, l) + 1, window_end st now (addr, ep, l))"
proof (induction ls arbitrary: st)
  case Nil
  then show ?case by simp
next
  case (Cons a ls)
  show ?case
  proof (cases "l = a")
    case True
    with Cons.prems have "l \<notin> set ls" by simp
    then have "snd (check_request_limit (snd (hit st now (addr, ep, a))) now addr ep ls) (addr, ep, l) =
        snd (hit st now (addr, ep, a)) (addr, ep, l)"
      by (rule check_request_limit_other)
    also have "\<dots> = Some (counted st now (addr, ep, l) + 1, window_end st now (addr, ep, l))"
      using True by (simp only: hit_same)
    finally show ?thesis
      by (simp only: check_request_limit_Cons snd_conv)
  next
    case False
    with Cons.prems have "l \<in> set ls" and "distinct ls" by simp_all
    then have "snd (check_request_limit (snd (hit st now (addr, ep, a))) now addr ep ls) (addr, ep, l) =
        Some (counted (snd (hit st now (addr, ep, a))) now (addr, ep, l) + 1,
              window_end (snd (hit st now (addr, ep, a))) now (addr, ep, l))"
      using Cons.IH by blast
    moreover have "snd (hit st now (addr, ep, a)) (addr, ep, l) = st (addr, ep, l)"
      using False by (simp add: hit_other)
    then have "counted (snd (hit st now (addr, ep, a))) now (addr, ep, l) = counted st now (addr, ep, l)"
      and "window_end (snd (hit st now (addr, ep, a))) now (addr, ep, l) = window_end st now (addr, ep, l)"
      by (simp_all add: counted_def window_end_def)
    ultimately show ?thesis
      by (simp only: check_request_limit_Cons snd_conv)
  qed
qed

lemma check_request_limit_passes:
  "distinct ls \<Longrightarrow>
   fst (check_request_limit st now addr ep ls) =
     (\<forall>l \<in> set ls. counted st now (addr, ep, l) < fst l)"
proof (induction ls arbitrary: st)
  case Nil
  then show ?case by simp
next
  case (Cons a ls)
  have tail: "fst (check_request_limit (snd (hit st now (addr, ep, a))) now addr ep ls) =
      (\<forall>l \<in> set ls. counted (snd (hit st now (addr, ep, a))) now (addr, ep, l) < fst l)"
    using Cons.prems by (intro Cons.IH) simp
  have same: "\<And>l. l \<in> set ls \<Longrightarrow>
      counted (snd (hit st now (addr, ep, a))) now (addr, ep, l) = counted st now (addr, ep, l)"
    using Cons.prems by (intro counted_cong hit_other) auto
  have head: "fst (hit st now (addr, ep, a)) = (counted st now (addr, ep, a) < fst a)"
    by (auto simp add: hit_def)
  have "fst (check_request_limit st now addr ep (a # ls)) =
      (counted st now (addr, ep, a) < fst a \<and>
       (\<forall>l \<in> set ls. counted (snd (hit st now (addr, ep, a))) now (addr, ep, l) < fst l))"
    by (simp only: check_request_limit_Cons fst_conv head tail)
  also have "\<dots> = (counted st now (addr, ep, a) < fst a \<and> (\<forall>l \<in> set ls. counted st now (addr, ep, l) < fst l))"
    using same by simp 
  finally show ?case by simp
qed

lemma dispatch_refused_iff:
  "(fst (dispatch env rq a) = Inl RateLimitExceeded) =
     (\<exists>l \<in> set (route_limits (endpoint_of (route rq))).
        fst l \<le> counted (limiter a) (arrival rq) (remote_address rq, endpoint_of (route rq), l))"
proof -
  have "fst (check_request_limit (limiter a) (arrival rq) (remote_address rq) (endpoint_of (route rq))
            (route_limits (endpoint_of (route rq)))) =
      (\<forall>l \<in> set (route_limits (endpoint_of (route rq))).
         counted (limiter a) (arrival rq) (remote_address rq, endpoint_of (route rq), l) < fst l)"
    by (rule check_request_limit_passes) (rule distinct_route_limits)
  then have "(\<not> fst (check_request_limit (limiter a) (arrival rq) (remote_address rq) (endpoint_of (route rq))
            (route_limits (endpoint_of (route rq))))) =
      (\<exists>l \<in> set (route_limits (endpoint_of (route rq))).
         fst l \<le> counted (limiter a) (arrival rq) (remote_address rq, endpoint_of (route rq), l))"
    by (simp add: not_less)
  moreover have "(fst (dispatch env rq a) = Inl RateLimitExceeded) =
      (\<not> fst (check_request_limit (limiter a) (arrival rq) (remote_address rq) (endpoint_of (route rq))
            (route_limits (endpoint_of (route rq)))))"
    using view_function_not_rate_limited [of env "route rq" "db_session a"]
    by (simp add: dispatch_eq)
  ultimately show ?thesis by simp
qed

lemma dispatch_refused_session:
  "fst (dispatch env rq a) = Inl RateLimitExceeded \<Longrightarrow> db_session (snd (dispatch env rq a)) = db_session a"
  using view_function_not_rate_limited [of env "route rq" "db_session a"]
  by (simp add: dispatch_eq split: if_splits)

lemma dispatch_limiter:
  "l \<in> set (route_limits (endpoint_of (route rq))) \<Longrightarrow>
   limiter (snd (dispatch env rq a)) (remote_address rq, endpoint_of (route rq), l) =
     Some (counted (limiter a) (arrival rq) (remote_address rq, endpoint_of (route rq), l) + 1,
           window_end (limiter a) (arrival rq) (remote_address rq, endpoint_of (route rq), l))"
proof -
  assume l: "l \<in> set (route_limits (endpoint_of (route rq)))"
  have "snd (check_request_limit (limiter a) (arrival rq) (remote_address rq) (endpoint_of (route rq))
            (route_limits (endpoint_of (route rq)))) (remote_address rq, endpoint_of (route rq), l) =
     Some (counted (limiter a) (arrival rq) (remote_address rq, endpoint_of (route rq), l) + 1,
           window_end (limiter a) (arrival rq) (remote_address rq, endpoint_of (route rq), l))"
    using distinct_route_limits l by (rule check_request_limit_same)
  then show ?thesis
    by (simp add: dispatch_eq)
qed

lemma serve_refused_within_window:
  "l \<in> set (route_limits ep) \<Longrightarrow> limiter a (addr, ep, l) = Some (n, expiry) \<Longrightarrow> fst l \<le> n \<Longrightarrow>
   list_all (\<lambda>rq. remote_address rq = addr \<and> endpoint_of (route rq) = ep \<and> arrival rq < expiry) rqs \<Longrightarrow>
   list_all (\<lambda>r. r = Inl RateLimitExceeded) (fst (serve env rqs a)) \<and>
   db_session (snd (serve env rqs a)) = db_session a"
proof (induction rqs arbitrary: a n)
  case Nil
  then show ?case by simp
next
  case (Cons rq rqs)
  from Cons.prems have rq: "remote_address rq = addr" "endpoint_of (route rq) = ep" "arrival rq < expiry"
    and rest: "list_all (\<lambda>rq. remote_address rq = addr \<and> endpoint_of (route rq) = ep \<and> arrival rq < expiry) rqs"
    by simp_all
  have cnt: "counted (limiter a) (arrival rq) (addr, ep, l) = n"
    using Cons.prems(2) rq(3) by (simp add: counted_def)
  have wend: "window_end (limiter a) (arrival rq) (addr, ep, l) = expiry"
    using Cons.prems(2) rq(3) by (simp add: window_end_def)
  have refused: "fst (dispatch env rq a) = Inl RateLimitExceeded"
    unfolding dispatch_refused_iff using Cons.prems(1,3) rq cnt by auto
  then have sess: "db_session (snd (dispatch env rq a)) = db_session a"
    by (rule dispatch_refused_session)
  have lim: "limiter (snd (dispatch env rq a)) (addr, ep, l) = Some (n + 1, expiry)"
    using dispatch_limiter [of l rq env a] Cons.prems(1) rq cnt wend by simp
  have "fst l \<le> n + 1"
    using Cons.prems(3) by simp
  with Cons.prems(1) lim
  have "list_all (\<lambda>r. r = Inl RateLimitExceeded) (fst (serve env rqs (snd (dispatch env rq a)))) \<and>
      db_session (snd (serve env rqs (snd (dispatch env rq a)))) = db_session (snd (dispatch env rq a))"
    using rest by (rule Cons.IH)
  with refused sess show ?case
    by (simp add: serve_Cons del: serve.simps)
qed


lemma route_limits_account_index: "route_limits EP_account_index = [(1, 1)]"
  by (simp add: route_limits_def per_second_def)

lemma serve_listing_spaced:
  "sorted_wrt (<) ts \<Longrightarrow> list_all (\<lambda>t. t0 \<le> t) ts \<Longrightarrow>
   (\<And>n e. limiter a (addr, EP_account_index, (1, 1)) = Some (n, e) \<Longrightarrow> e \<le> t0) \<Longrightarrow>
   Inl RateLimitExceeded \<notin>
     set (fst (serve env (map (\<lambda>t. \<lparr>remote_address = addr, arrival = t, route = Get_accounts\<rparr>) ts) a))"
proof (induction ts arbitrary: a t0)
  case Nil
  then show ?case by simp
next
  case (Cons t ts)
  let ?rq = "\<lparr>remote_address = addr, arrival = t, route = Get_accounts\<rparr>"
  let ?k = "(addr, EP_account_index, (1::nat, 1::nat))"
  from Cons.prems have t0: "t0 \<le> t" and later: "list_all (\<lambda>u. t + 1 \<le> u) ts" and sorted: "sorted_wrt (<) ts"
    by (auto simp add: list_all_iff)
  have expired: "\<And>n e. limiter a ?k = Some (n, e) \<Longrightarrow> \<not> t < e"
    using Cons.prems(3) t0 by fastforce
  have cnt: "counted (limiter a) t ?k = 0"
    using expired by (auto simp add: counted_def split: option.splits)
  have wend: "window_end (limiter a) t ?k = t + 1"
    using expired by (auto simp add: window_end_def split: option.splits)
  have admitted: "fst (dispatch env ?rq a) \<noteq> Inl RateLimitExceeded"
    unfolding dispatch_refused_iff using cnt by (simp add: route_limits_account_index)
  have "limiter (snd (dispatch env ?rq a)) ?k = Some (0 + 1, t + 1)"
    using dispatch_limiter [of "(1, 1)" ?rq env a] cnt wend by (simp add: route_limits_account_index)
  then have "\<And>n e. limiter (snd (dispatch env ?rq a)) ?k = Some (n, e) \<Longrightarrow> e \<le> t + 1"
    by simp
  with sorted later
  have "Inl RateLimitExceeded \<notin>
     set (fst (serve env (map (\<lambda>t. \<lparr>remote_address = addr, arrival = t, route = Get_accounts\<rparr>) ts)
                (snd (dispatch env ?rq a))))"
    by (rule Cons.IH)
  with admitted show ?case
    by (simp add: serve_Cons del: serve.simps)
qed

text \<open>
  C9, as the specification states it, puts the listing route under the defaults of 200
  a day and 50 an hour and, on top of them, under 1 a second. The decorated limit
  replaces the defaults: of fifty-one listing requests of one client, two seconds
  apart, none is refused.
\<close>

theorem listing_outside_default_limits:
  "length fifty_one_listings = 51 \<and>
   Inl RateLimitExceeded \<notin>
     set (fst (serve healthy fifty_one_listings \<lparr>limiter = Map.empty, db_session = idle\<rparr>))"
proof -
  have "sorted_wrt (<) (map (\<lambda>i. 2 * i) [0..<51::nat])"
    by (simp add: sorted_wrt_map)
  moreover have "list_all (\<lambda>t. 0 \<le> t) (map (\<lambda>i. 2 * i) [0..<51::nat])"
    by (simp add: list_all_iff)
  ultimately have "Inl RateLimitExceeded \<notin>
     set (fst (serve healthy
       (map (\<lambda>t. \<lparr>remote_address = ''10.0.0.1'', arrival = t, route = Get_accounts\<rparr>)
          (map (\<lambda>i. 2 * i) [0..<51::nat]))
       \<lparr>limiter = Map.empty, db_session = idle\<rparr>))"
    by (rule serve_listing_spaced) simp
  then show ?thesis
    by (simp add: fifty_one_listings_def listing_def comp_def)
qed

text \<open>
  C9, amended. The defaults are 200 requests a day and 50 an hour, counted for each
  client address and route; they are in force on the routes with no limit of their own,
  the update \<open>POST\<close> and the delete. The listing and the update view carry the one limit
  of 1 request a second for each client, in place of the defaults. A request is refused
  with the rate-limit error exactly when, for some limit in force on its route, the
  client's count in the current window has reached the limit's number; every request is
  counted in the window of each limit in force; a refused request leaves the database
  session untouched (no view function ran, no statement was sent), and so does every
  further request of that client to that route before the window's end: each is
  refused.
\<close>

theorem rate_limits_enforced:
  "default_limits = [(200, 86400), (50, 3600)] \<and>
   route_limits EP_account_update_save = default_limits \<and>
   route_limits EP_account_delete = default_limits \<and>
   route_limits EP_account_index = [(1, 1)] \<and>
   route_limits EP_account_update_view = [(1, 1)] \<and>
   ((fst (dispatch env rq a) = Inl RateLimitExceeded) =
      (\<exists>l \<in> set (route_limits (endpoint_of (route rq))).
         fst l \<le> counted (limiter a) (arrival rq) (remote_address rq, endpoint_of (route rq), l))) \<and>
   (fst (dispatch env rq a) = Inl RateLimitExceeded \<longrightarrow>
      db_session (snd (dispatch env rq a)) = db_session a) \<and>
   (l \<in> set (route_limits (endpoint_of (route rq))) \<longrightarrow>
      limiter (snd (dispatch env rq a)) (remote_address rq, endpoint_of (route rq), l) =
        Some (counted (limiter a) (arrival rq) (remote_address rq, endpoint_of (route rq), l) + 1,
              window_end (limiter a) (arrival rq) (remote_address rq, endpoint_of (route rq), l))) \<and>
   (m \<in> set (route_limits ep) \<and> limiter a (addr, ep, m) = Some (n, expiry) \<and> fst m \<le> n \<and>
    list_all (\<lambda>rq. remote_address rq = addr \<and> endpoint_of (route rq) = ep \<and> arrival rq < expiry) rqs \<longrightarrow>
      list_all (\<lambda>r. r = Inl RateLimitExceeded) (fst (serve env rqs a)) \<and>
      db_session (snd (serve env rqs a)) = db_session a)"
proof (intro conjI impI)
  show "default_limits = [(200, 86400), (50, 3600)]"
    by (simp add: default_limits_def per_day_def per_hour_def)
  show "route_limits EP_account_update_save = default_limits"
    and "route_limits EP_account_delete = default_limits"
    by (simp_all add: route_limits_def default_limits_def)
  show "route_limits EP_account_index = [(1, 1)]"
    and "route_limits EP_account_update_view = [(1, 1)]"
    by (simp_all add: route_limits_def per_second_def)
  show "(fst (dispatch env rq a) = Inl RateLimitExceeded) =
      (\<exists>l \<in> set (route_limits (endpoint_of (route rq))).
         fst l \<le> counted (limiter a) (arrival rq) (remote_address rq, endpoint_of (route rq), l))"
    by (rule dispatch_refused_iff)
next
  assume "fst (dispatch env rq a) = Inl RateLimitExceeded"
  then show "db_session (snd (dispatch env rq a)) = db_session a"
    by (rule dispatch_refused_session)
next
  assume "l \<in> set (route_limits (endpoint_of (route rq)))"
  then show "limiter (snd (dispatch env rq a)) (remote_address rq, endpoint_of (route rq), l) =
        Some (counted (limiter a) (arrival rq) (remote_address rq, endpoint_of (route rq), l) + 1,
              window_end (limiter a) (arrival rq) (remote_address rq, endpoint_of (route rq), l))"
    by (rule dispatch_limiter)
next
  assume h: "m \<in> set (route_limits ep) \<and> limiter a (addr, ep, m) = Some (n, expiry) \<and> fst m \<le> n \<and>
    list_all (\<lambda>rq. remote_address rq = addr \<and> endpoint_of (route rq) = ep \<and> arrival rq < expiry) rqs"
  then have "list_all (\<lambda>r. r = Inl RateLimitExceeded) (fst (serve env rqs a)) \<and>
      db_session (snd (serve env rqs a)) = db_session a"
    by (intro serve_refused_within_window [of m ep a addr n expiry]) simp_all
  then show "list_all (\<lambda>r. r = Inl RateLimitExceeded) (fst (serve env rqs a))"
    and "db_session (snd (serve env rqs a)) = db_session a"
    by simp_all
qed

theorem rate_limits_enforced_witness:
  "list_all (\<lambda>r. r = Inl RateLimitExceeded)
     (fst (serve healthy [deleting 100, deleting 200] at_the_hourly_limit)) \<and>
   db_session (snd (serve healthy [deleting 100, deleting 200] at_the_hourly_limit)) = idle"
proof -
  have "(50, 3600) \<in> set (route_limits EP_account_delete) \<and>
      limiter at_the_hourly_limit (''10.0.0.1'', EP_account_delete, (50, 3600)) = Some (50, 3600) \<and>
      fst (50 :: nat, 3600 :: nat) \<le> 50 \<and>
      list_all (\<lambda>rq. remote_address rq = ''10.0.0.1'' \<and> endpoint_of (route rq) = EP_account_delete \<and>
                  arrival rq < 3600) [deleting 100, deleting 200]"
    by (simp add: route_limits_def default_limits_def per_hour_def at_the_hourly_limit_def deleting_def)
  then have "list_all (\<lambda>r. r = Inl RateLimitExceeded)
       (fst (serve healthy [deleting 100, deleting 200] at_the_hourly_limit)) \<and>
     db_session (snd (serve healthy [deleting 100, deleting 200] at_the_hourly_limit)) =
       db_session at_the_hourly_limit"
    using rate_limits_enforced
      [where m = "(50, 3600)" and ep = EP_account_delete and a = at_the_hourly_limit
         and addr = "''10.0.0.1''" and n = 50 and expiry = 3600
         and rqs = "[deleting 100, deleting 200]" and env = healthy]
    by blast
  then show ?thesis
    by (simp add: at_the_hourly_limit_def)
qed

subsection \<open>The liveness route\<close>

text \<open>
  C10. A \<open>GET /ping\<close> is answered with status 200 and the fixed payload
  \<open>{"message": "pong!", "status": "success"}\<close>, and the route is exempt from every rate
  limit: no limit is in force on it, and the request is answered whatever the client,
  the time and the limiter's counters are, without touching them or the database.
\<close>

theorem ping_fixed_payload_exempt:
  "route_limits EP_ping = [] \<and>
   dispatch env \<lparr>remote_address = addr, arrival = t, route = Get_ping\<rparr> a =
     (Inr (Jsonify [(''message'', ''pong!''), (''status'', ''success'')]), a) \<and>
   status_code (Jsonify [(''message'', ''pong!''), (''status'', ''success'')] :: 'k response) = 200"
  by (simp add: dispatch_def route_limits_def ping_def)

theorem ping_fixed_payload_exempt_witness:
  "dispatch \<lparr>pool_timeout = True, fails = (\<lambda>n. True)\<rparr>
      \<lparr>remote_address = ''10.0.0.1'', arrival = 0, route = Get_ping\<rparr>
      \<lparr>limiter = (\<lambda>k. Some (1000, 1000)), db_session = idle\<rparr> =
     (Inr (Jsonify [(''message'', ''pong!''), (''status'', ''success'')]),
      \<lparr>limiter = (\<lambda>k. Some (1000, 1000)), db_session = idle\<rparr>)"
  using ping_fixed_payload_exempt by blast

end
